theory Spec2Isabelle
  imports Main "HOL-Library.Word" "HOL-Library.Mapping" "HOL-Library.AList_Mapping"
begin

unbundle bit_operations_syntax

section \<open>libsmtp: a wrapper around net/smtp\<close>

text \<open>
  A shallow embedding of \<^verbatim>\<open>libsmtp.go\<close> (package \<^verbatim>\<open>libsmtp\<close>).

  Go strings and byte slices are both sequences of bytes; an Isabelle \<open>char\<close> is a byte,
  so both are modelled as \<open>string\<close>. A method with a pointer receiver takes the message
  and returns the message as the call leaves it, next to the error it returns
  (\<open>None\<close> for Go's \<^verbatim>\<open>nil\<close>).
\<close>

subsection \<open>Data model\<close>

type_synonym bytes = string

text \<open>
  Go's \<^verbatim>\<open>error\<close> values. \<open>Errorf\<close> is an error that this package makes with
  \<^verbatim>\<open>fmt.Errorf\<close>; \<open>PathError\<close> stands for what \<^verbatim>\<open>ioutil.ReadFile\<close> reports and
  \<open>SmtpError\<close> for what the \<^verbatim>\<open>net/smtp\<close> client reports.
\<close>

datatype error = Errorf string | PathError string | SmtpError string

text \<open>
  The struct \<^verbatim>\<open>MailMessage\<close>. The field \<^verbatim>\<open>from\<close> is named \<open>from_addr\<close> here and the
  field \<^verbatim>\<open>to\<close> is named \<open>to_addrs\<close>, the source's names being reserved words of the
  prover. The two \<^verbatim>\<open>*bytes.Buffer\<close> fields are the bytes written to them so far;
  the three Go maps are finite maps of type \<open>mapping\<close>.
\<close>

record MailMessage =
  attachmentLengths :: "(string, int) mapping"
  attachments :: "(string, bytes) mapping"
  attachmentBoundaries :: "(string, string) mapping"
  body :: bytes
  buf :: bytes
  from_addr :: string
  port :: int
  server :: string
  subject :: string
  tls :: bool
  to_addrs :: "string list"
  contentType :: string
  buildCalled :: bool

subsection \<open>Construction\<close>

text \<open>
  \<^verbatim>\<open>New\<close> returns a nil message with the error, or the message with a nil error: a sum.
  The parameter \<open>now\<close> is the text that \<^verbatim>\<open>%s\<close> prints for \<^verbatim>\<open>time.Now()\<close>.
  \<^verbatim>\<open>port\<close> is only compared with zero and printed, so Go's \<^verbatim>\<open>int\<close> is \<open>int\<close> here.
\<close>

definition New :: "string \<Rightarrow> int \<Rightarrow> string \<Rightarrow> string list \<Rightarrow> bool \<Rightarrow> string
    \<Rightarrow> error + MailMessage" where
  "New server' port' from' to' usetls now =
     (if server' = '''' then Inl (Errorf ''SMTP server required'')
      else if from' = '''' then Inl (Errorf ''SMTP sender required'')
      else if length to' = 0 then Inl (Errorf ''Mail recipient(s) required'')
      else
        let port'' = (if port' \<le> 0 then 25 else port')
        in Inr \<lparr> attachmentLengths = Mapping.empty,
                 attachments = Mapping.empty,
                 attachmentBoundaries = Mapping.empty,
                 body = [],
                 buf = [],
                 from_addr = from',
                 port = port'',
                 server = server',
                 subject = ''libsmtp - '' @ now,
                 tls = usetls,
                 to_addrs = to',
                 contentType = ''text/plain'',
                 buildCalled = False \<rparr>)"

subsection \<open>Setters\<close>

definition SetBody :: "MailMessage \<Rightarrow> string \<Rightarrow> MailMessage" where
  "SetBody m data = m\<lparr>body := body m @ data\<rparr>"

definition SetBodyBytes :: "MailMessage \<Rightarrow> bytes \<Rightarrow> MailMessage" where
  "SetBodyBytes m data = m\<lparr>body := body m @ data\<rparr>"

definition SetContentType :: "MailMessage \<Rightarrow> string \<Rightarrow> MailMessage" where
  "SetContentType m ct =
     (if length ct > 0 then m\<lparr>contentType := ct\<rparr>
      else m\<lparr>contentType := ''text/plain''\<rparr>)"

definition Subject :: "MailMessage \<Rightarrow> string \<Rightarrow> MailMessage" where
  "Subject m subject' = m\<lparr>subject := subject'\<rparr>"

subsection \<open>The platform: files, base64 and printing\<close>

text \<open>
  What \<^verbatim>\<open>AddAttachment\<close> asks of its surroundings: \<^verbatim>\<open>ioutil.ReadFile\<close>, which gives the
  bytes of a file or an error, and \<^verbatim>\<open>filepath.Base\<close>. Neither is code of this package;
  they are taken as parameters.
\<close>

record Platform =
  ReadFile :: "string \<Rightarrow> error + bytes"
  Base :: "string \<Rightarrow> string"

text \<open>
  \<^verbatim>\<open>base64.StdEncoding\<close>: the alphabet of RFC 4648 with \<^verbatim>\<open>=\<close> padding. \<^verbatim>\<open>Encode\<close> packs
  three bytes into a \<^verbatim>\<open>uint\<close> below \<open>2 ^ 24\<close> and cuts four sextets from it; the value
  never overflows, so it is a \<open>nat\<close> here, with the shifts and masks of the library.
  \<^verbatim>\<open>EncodedLen\<close> is applied to lengths only, where Go's quotient is \<open>div\<close>.
\<close>

definition encodeStd :: string where
  "encodeStd = ''ABCDEFGHIJKLMNOPQRSTUVWXYZabcdefghijklmnopqrstuvwxyz0123456789+/''"

definition EncodedLen :: "int \<Rightarrow> int" where
  "EncodedLen n = (n + 2) div 3 * 4"

fun Encode :: "bytes \<Rightarrow> bytes" where
  "Encode (s0 # s1 # s2 # src) =
     (let val = push_bit 16 (of_char s0 :: nat) OR push_bit 8 (of_char s1) OR of_char s2
      in encodeStd ! (drop_bit 18 val AND 0x3F) #
         encodeStd ! (drop_bit 12 val AND 0x3F) #
         encodeStd ! (drop_bit 6 val AND 0x3F) #
         encodeStd ! (val AND 0x3F) # Encode src)"
| "Encode [s0, s1] =
     (let val = push_bit 16 (of_char s0 :: nat) OR push_bit 8 (of_char s1)
      in [encodeStd ! (drop_bit 18 val AND 0x3F),
          encodeStd ! (drop_bit 12 val AND 0x3F),
          encodeStd ! (drop_bit 6 val AND 0x3F),
          CHR ''=''])"
| "Encode [s0] =
     (let val = push_bit 16 (of_char s0 :: nat)
      in [encodeStd ! (drop_bit 18 val AND 0x3F),
          encodeStd ! (drop_bit 12 val AND 0x3F),
          CHR ''='', CHR ''=''])"
| "Encode [] = []"

text \<open>
  The decoder is not called by the package. It is the inverse that the round-trip
  property of attachments is stated with: each group of four characters gives three
  bytes, and a final group padded with one or two \<^verbatim>\<open>=\<close> gives two bytes or one.
\<close>

fun index_of :: "'a list \<Rightarrow> 'a \<Rightarrow> nat option" where
  "index_of [] c = None"
| "index_of (x # xs) c = (if x = c then Some 0 else map_option Suc (index_of xs c))"

definition decodeMap :: "char \<Rightarrow> nat option" where
  "decodeMap c = index_of encodeStd c"

definition quantum :: "nat \<Rightarrow> nat \<Rightarrow> nat \<Rightarrow> nat \<Rightarrow> nat" where
  "quantum a b c d = push_bit 18 a OR push_bit 12 b OR push_bit 6 c OR d"

definition byte_at :: "nat \<Rightarrow> nat \<Rightarrow> char" where
  "byte_at k val = char_of (drop_bit k val AND 0xFF)"

fun Decode :: "bytes \<Rightarrow> bytes option" where
  "Decode [] = Some []"
| "Decode (c0 # c1 # c2 # c3 # rest) =
     (case (decodeMap c0, decodeMap c1) of
        (Some a, Some b) \<Rightarrow>
          if rest = [] \<and> c2 = CHR ''='' \<and> c3 = CHR ''=''
          then Some [byte_at 16 (quantum a b 0 0)]
          else (case decodeMap c2 of
                  None \<Rightarrow> None
                | Some c \<Rightarrow>
                    if rest = [] \<and> c3 = CHR ''=''
                    then Some [byte_at 16 (quantum a b c 0), byte_at 8 (quantum a b c 0)]
                    else (case decodeMap c3 of
                            None \<Rightarrow> None
                          | Some d \<Rightarrow>
                              map_option
                                (\<lambda>out. byte_at 16 (quantum a b c d) # byte_at 8 (quantum a b c d) #
                                   byte_at 0 (quantum a b c d) # out)
                                (Decode rest)))
      | _ \<Rightarrow> None)"
| "Decode _ = None"

text \<open>The verb \<^verbatim>\<open>%d\<close> of \<^verbatim>\<open>fmt.Sprintf\<close> on an \<^verbatim>\<open>int\<close>: decimal, with a sign when negative.\<close>

function utoa :: "nat \<Rightarrow> string" where
  "utoa n = (if n < 10 then [''0123456789'' ! n]
             else utoa (n div 10) @ [''0123456789'' ! (n mod 10)])"
  by pat_completeness auto
termination
  by (relation "measure id") auto

declare utoa.simps [simp del]

definition itoa :: "int \<Rightarrow> string" where
  "itoa i = (if i < 0 then CHR ''-'' # utoa (nat (- i)) else utoa (nat i))"

text \<open>\<^verbatim>\<open>strings.Join\<close> and \<^verbatim>\<open>strings.Contains\<close>.\<close>

fun Join :: "string list \<Rightarrow> string \<Rightarrow> string" where
  "Join [] sep = []"
| "Join [a] sep = a"
| "Join (a # b # elems) sep = a @ sep @ Join (b # elems) sep"

fun Contains :: "string \<Rightarrow> string \<Rightarrow> bool" where
  "Contains [] substr = (substr = [])"
| "Contains (c # s) substr = (take (length substr) (c # s) = substr \<or> Contains s substr)"

subsection \<open>Attachments\<close>

text \<open>
  \<open>token\<close> is the string that \<^verbatim>\<open>utils.RandomBase36()\<close> returns when it is called.
  \<^verbatim>\<open>Encode\<close> fills the whole slice of \<^verbatim>\<open>encodedLen\<close> bytes made for it (lemma
  \<open>length_Encode\<close> below), so the slice is the encoding.
\<close>

definition AddAttachment :: "Platform \<Rightarrow> string \<Rightarrow> MailMessage \<Rightarrow> string
    \<Rightarrow> error option \<times> MailMessage" where
  "AddAttachment os token m pathToFile =
     (if pathToFile \<noteq> '''' then
        let attachmentName = Base os pathToFile
        in case ReadFile os pathToFile of
             Inl err \<Rightarrow> (Some err, m)
           | Inr b \<Rightarrow>
               let encodedLen = EncodedLen (int (length b));
                   encodedAttachment = Encode b
               in (None,
                   m\<lparr>attachments := Mapping.update attachmentName encodedAttachment (attachments m),
                     attachmentLengths := Mapping.update attachmentName encodedLen (attachmentLengths m),
                     attachmentBoundaries :=
                       Mapping.update attachmentName token (attachmentBoundaries m)\<rparr>)
      else (Some (Errorf ''No attachment specified''), m))"

subsection \<open>Serialization\<close>

text \<open>
  Go leaves the order in which \<^verbatim>\<open>range\<close> visits a map open. Each loop over
  \<^verbatim>\<open>attachmentBoundaries\<close> therefore takes the order of the keys as a parameter;
  \<open>range_order\<close> says that a list is such an order, every key once. \<open>visit\<close> gives
  the pairs \<^verbatim>\<open>k, v\<close> that the loop sees.
\<close>

definition range_order :: "('k, 'v) mapping \<Rightarrow> 'k list \<Rightarrow> bool" where
  "range_order mp ks \<longleftrightarrow> distinct ks \<and> set ks = Mapping.keys mp"

definition visit :: "('k, 'v) mapping \<Rightarrow> 'k list \<Rightarrow> ('k \<times> 'v) list" where
  "visit mp ks = List.map_filter (\<lambda>k. map_option (Pair k) (Mapping.lookup mp k)) ks"

text \<open>
  Reading a key that a Go map does not hold gives the zero value, and \<^verbatim>\<open>len(mp) > 0\<close>
  says that the map holds a key.
\<close>

definition length_of :: "MailMessage \<Rightarrow> string \<Rightarrow> int" where
  "length_of m k = (case Mapping.lookup (attachmentLengths m) k of None \<Rightarrow> 0 | Some n \<Rightarrow> n)"

definition content_of :: "MailMessage \<Rightarrow> string \<Rightarrow> bytes" where
  "content_of m k = (case Mapping.lookup (attachments m) k of None \<Rightarrow> [] | Some b \<Rightarrow> b)"

text \<open>The first loop of \<^verbatim>\<open>build\<close>: a multipart header and an opening marker per boundary.\<close>

fun write_boundaries :: "bytes \<Rightarrow> (string \<times> string) list \<Rightarrow> bytes" where
  "write_boundaries b [] = b"
| "write_boundaries b ((k, v) # kvs) =
     write_boundaries
       (b @ (''Content-Type: multipart/mixed; boundary=\"'' @ v @ ''\"\<newline>'')
          @ (''--'' @ v @ ''\<newline>'')) kvs"

text \<open>The second loop: one block per attachment.\<close>

definition attachment_block :: "MailMessage \<Rightarrow> string \<Rightarrow> string \<Rightarrow> bytes" where
  "attachment_block m k v =
     (''\<newline>\<newline>--'' @ v @ ''\<newline>'')
     @ (''Content-Type: application/octet-stream; name=\"'' @ k @ ''\"\<newline>'')
     @ (''Content-Description: '' @ k @ ''\<newline>'')
     @ (''Content-Disposition: attachment; filename=\"'' @ k @ ''\"; size=''
          @ itoa (length_of m k) @ ''\<newline>'')
     @ ''Content-Transfer-Encoding: base64\<newline>\<newline>''
     @ content_of m k
     @ (''\<newline>--'' @ v @ ''--'')"

fun write_attachments :: "MailMessage \<Rightarrow> bytes \<Rightarrow> (string \<times> string) list \<Rightarrow> bytes" where
  "write_attachments m b [] = b"
| "write_attachments m b ((k, v) # kvs) = write_attachments m (b @ attachment_block m k v) kvs"

definition build :: "string list \<Rightarrow> string list \<Rightarrow> MailMessage \<Rightarrow> error option \<times> MailMessage" where
  "build ks ks' m =
     (if length (body m) = 0 then (Some (Errorf ''Message body is empty''), m)
      else
        let encodedBody = Encode (body m);
            b1 = buf m @ (''To: '' @ Join (to_addrs m) '','' @ ''\<newline>'');
            b2 = b1 @ (''Subject: '' @ subject m @ ''\<newline>'');
            b3 = (if \<not> Mapping.is_empty (attachments m)
                  then write_boundaries b2 (visit (attachmentBoundaries m) ks) else b2);
            b4 = b3 @ ''Content-Transfer-Encoding: base64\<newline>'';
            b5 = b4 @ ''MIME-Version: 1.0;\<newline>'';
            b6 = b5 @ (''Content-Type: '' @ contentType m @ ''; charset=\"utf-8\";\<newline>\<newline>'');
            b7 = b6 @ encodedBody;
            b8 = (if \<not> Mapping.is_empty (attachments m)
                  then write_attachments m b7 (visit (attachmentBoundaries m) ks') else b7)
        in (None, m\<lparr>buf := b8, buildCalled := True\<rparr>))"

text \<open>\<^verbatim>\<open>Bytes\<close> returns the bytes of the buffer and the error of \<^verbatim>\<open>build\<close>, if it ran.\<close>

definition Bytes :: "string list \<Rightarrow> string list \<Rightarrow> MailMessage
    \<Rightarrow> (bytes \<times> error option) \<times> MailMessage" where
  "Bytes ks ks' m =
     (if buildCalled m then ((buf m, None), m)
      else case build ks ks' m of (err, m') \<Rightarrow> ((buf m', err), m'))"

subsection \<open>Sending\<close>

text \<open>
  The SMTP client of \<^verbatim>\<open>net/smtp\<close> is not code of this package. \<^verbatim>\<open>Send\<close> is modelled
  against a server that decides, from the calls made on the connection so far (the
  newest last), whether the newest call fails, and whether an extension is advertised.
  The result of \<^verbatim>\<open>Send\<close> is its error, the calls it made, in order, and the message.
  The source ignores what \<^verbatim>\<open>Reset\<close> and \<^verbatim>\<open>Quit\<close> return and the error of \<^verbatim>\<open>Extension\<close>.
  \<open>StartTLS\<close> carries the fields \<^verbatim>\<open>InsecureSkipVerify\<close> and \<^verbatim>\<open>ServerName\<close> of the
  configuration.
\<close>

datatype call =
    Dial string
  | Extension string
  | StartTLS bool string
  | Mail string
  | Rcpt string
  | Data
  | Write bytes
  | Close
  | Reset
  | Quit

record Server =
  reply :: "call list \<Rightarrow> error option"
  supports :: "call list \<Rightarrow> bool"

text \<open>The address that \<^verbatim>\<open>Send\<close> dials, its local variable \<^verbatim>\<open>smtpUri\<close>.\<close>

definition smtpUri :: "MailMessage \<Rightarrow> string" where
  "smtpUri m =
     (if Contains (server m) '':'' then server m
      else server m @ '':'' @ itoa (port m))"

text \<open>The block \<^verbatim>\<open>if m.tls { ... }\<close>.\<close>

definition upgrade :: "Server \<Rightarrow> MailMessage \<Rightarrow> call list \<Rightarrow> error option \<times> call list" where
  "upgrade srv m t =
     (if tls m then
        let t1 = t @ [Extension ''STARTTLS'']
        in if supports srv t1 then
             let t2 = t1 @ [StartTLS True (server m)]
             in case reply srv t2 of
                  Some err \<Rightarrow> (Some err, t2 @ [Reset, Quit])
                | None \<Rightarrow> (None, t2)
           else (None, t1)
      else (None, t))"

text \<open>The loop over the recipients.\<close>

fun recipients :: "Server \<Rightarrow> call list \<Rightarrow> string list \<Rightarrow> error option \<times> call list" where
  "recipients srv t [] = (None, t)"
| "recipients srv t (v # vs) =
     (let t1 = t @ [Rcpt v]
      in case reply srv t1 of
           Some err \<Rightarrow> (Some err, t1 @ [Reset, Quit])
         | None \<Rightarrow> recipients srv t1 vs)"

text \<open>From \<^verbatim>\<open>c.Data()\<close> to the final \<^verbatim>\<open>c.Quit()\<close>.\<close>

definition transmit :: "Server \<Rightarrow> MailMessage \<Rightarrow> call list \<Rightarrow> error option \<times> call list" where
  "transmit srv m t =
     (let t1 = t @ [Data]
      in (case reply srv t1 of
            Some err \<Rightarrow> (Some err, t1 @ [Reset, Quit])
          | None \<Rightarrow>
              (let t2 = t1 @ [Write (buf m)]
               in (case reply srv t2 of
                     Some err \<Rightarrow> (Some err, t2 @ [Reset, Quit])
                   | None \<Rightarrow>
                       (let t3 = t2 @ [Close]
                        in (case reply srv t3 of
                              Some err \<Rightarrow> (Some err, t3 @ [Reset, Quit])
                            | None \<Rightarrow> (None, t3 @ [Quit])))))))"

definition Send :: "Server \<Rightarrow> string list \<Rightarrow> string list \<Rightarrow> MailMessage
    \<Rightarrow> error option \<times> call list \<times> MailMessage" where
  "Send srv ks ks' m =
     (case build ks ks' m of
        (Some err, m') \<Rightarrow> (Some err, [], m')
      | (None, m') \<Rightarrow>
          (let t0 = [Dial (smtpUri m')]
           in (case reply srv t0 of
                 Some err \<Rightarrow> (Some err, t0, m')
               | None \<Rightarrow>
                   (case upgrade srv m' t0 of
                      (Some err, t1) \<Rightarrow> (Some err, t1, m')
                    | (None, t1) \<Rightarrow>
                        (let t2 = t1 @ [Mail (from_addr m')]
                         in (case reply srv t2 of
                               Some err \<Rightarrow> (Some err, t2 @ [Reset, Quit], m')
                             | None \<Rightarrow>
                                 (case recipients srv t2 (to_addrs m') of
                                    (Some err, t3) \<Rightarrow> (Some err, t3, m')
                                  | (None, t3) \<Rightarrow>
                                      (case transmit srv m' t3 of
                                         (err, t4) \<Rightarrow> (err, t4, m')))))))))"

subsection \<open>The messages a caller can hold\<close>

text \<open>
  The fields of \<^verbatim>\<open>MailMessage\<close> are not exported: outside the package a message comes
  from \<^verbatim>\<open>New\<close> and changes through the methods only.
\<close>

inductive reachable :: "MailMessage \<Rightarrow> bool" where
  reach_New: "New server' port' from' to' usetls now = Inr m \<Longrightarrow> reachable m"
| reach_AddAttachment: "reachable m \<Longrightarrow> reachable (snd (AddAttachment os token m pathToFile))"
| reach_SetBody: "reachable m \<Longrightarrow> reachable (SetBody m data)"
| reach_SetBodyBytes: "reachable m \<Longrightarrow> reachable (SetBodyBytes m data)"
| reach_SetContentType: "reachable m \<Longrightarrow> reachable (SetContentType m ct)"
| reach_Subject: "reachable m \<Longrightarrow> reachable (Subject m subject')"
| reach_Bytes: "reachable m \<Longrightarrow> reachable (snd (Bytes ks ks' m))"
| reach_Send: "reachable m \<Longrightarrow> reachable (snd (snd (Send srv ks ks' m)))"

subsection \<open>An example platform, server and message\<close>

text \<open>
  Base names as on Unix, a file system that holds one file of ten bytes, a server that
  accepts every command and advertises no extension, and a message with the body
  \<^verbatim>\<open>hello\<close>. The concrete instances below are evaluated on these.
\<close>

definition unix_Base :: "string \<Rightarrow> string" where
  "unix_Base path =
     (if path = '''' then ''.''
      else
        let stripped = rev (dropWhile (\<lambda>c. c = CHR ''/'') (rev path));
            last_element = rev (takeWhile (\<lambda>c. c \<noteq> CHR ''/'') (rev stripped))
        in if last_element = '''' then ''/'' else last_element)"

definition example_os :: Platform where
  "example_os =
     \<lparr> ReadFile = (\<lambda>p. if p = ''/tmp/a.bin'' then Inr ''0123456789''
                        else Inl (PathError ''no such file or directory'')),
       Base = unix_Base \<rparr>"

definition accepting_server :: Server where
  "accepting_server = \<lparr> reply = (\<lambda>t. None), supports = (\<lambda>t. False) \<rparr>"

definition example_message :: MailMessage where
  "example_message =
     SetBody (projr (New ''localhost'' 0 ''a@x.com'' [''b@x.com''] False ''T'')) ''hello''"

definition example_document :: bytes where
  "example_document =
     ''To: b@x.com\<newline>'' @
     ''Subject: libsmtp - T\<newline>'' @
     ''Content-Transfer-Encoding: base64\<newline>'' @
     ''MIME-Version: 1.0;\<newline>'' @
     ''Content-Type: text/plain; charset=\"utf-8\";\<newline>\<newline>'' @
     ''aGVsbG8=''"

text \<open>A message that asks for TLS, and a server whose TLS handshake fails.\<close>

definition example_tls_message :: MailMessage where
  "example_tls_message =
     SetBody (projr (New ''mail.example.org'' 587 ''a@x.com'' [''b@x.com'', ''c@y.org''] True ''T''))
       ''hello''"

definition handshake_failing_server :: Server where
  "handshake_failing_server =
     \<lparr> reply = (\<lambda>t. if StartTLS True ''mail.example.org'' \<in> set t
                     then Some (SmtpError ''tls: handshake failure'') else None),
       supports = (\<lambda>t. True) \<rparr>"

section \<open>Construction and setters\<close>

text \<open>
  Claim C2. \<^verbatim>\<open>New\<close> fails with an error that names the missing field when the server is
  empty, when the sender is empty, or when there is no recipient; the three errors
  differ. Otherwise it gives a message, whose port is 25 when the given port is not
  positive and the given port otherwise.
\<close>

theorem New_checks:
  "(server' = '''' \<longrightarrow> New server' port' from' to' usetls now = Inl (Errorf ''SMTP server required''))
   \<and> (server' \<noteq> '''' \<and> from' = '''' \<longrightarrow>
        New server' port' from' to' usetls now = Inl (Errorf ''SMTP sender required''))
   \<and> (server' \<noteq> '''' \<and> from' \<noteq> '''' \<and> to' = [] \<longrightarrow>
        New server' port' from' to' usetls now = Inl (Errorf ''Mail recipient(s) required''))
   \<and> (server' \<noteq> '''' \<and> from' \<noteq> '''' \<and> to' \<noteq> [] \<longrightarrow>
        (\<exists>m. New server' port' from' to' usetls now = Inr m
           \<and> port m = (if port' \<le> 0 then 25 else port')
           \<and> server m = server' \<and> from_addr m = from' \<and> to_addrs m = to' \<and> tls m = usetls))
   \<and> Errorf ''SMTP server required'' \<noteq> Errorf ''SMTP sender required''
   \<and> Errorf ''SMTP server required'' \<noteq> Errorf ''Mail recipient(s) required''
   \<and> Errorf ''SMTP sender required'' \<noteq> Errorf ''Mail recipient(s) required''"
  by (simp add: New_def Let_def)

theorem New_checks_witness:
  "New '''' 25 ''a@x.com'' [''b@x.com''] False ''T'' = Inl (Errorf ''SMTP server required'')
   \<and> New ''localhost'' 25 '''' [''b@x.com''] False ''T'' = Inl (Errorf ''SMTP sender required'')
   \<and> New ''localhost'' 25 ''a@x.com'' [] False ''T'' = Inl (Errorf ''Mail recipient(s) required'')
   \<and> (\<exists>m. New ''localhost'' 0 ''a@x.com'' [''b@x.com''] False ''T'' = Inr m \<and> port m = 25)
   \<and> (\<exists>m. New ''localhost'' (- 7) ''a@x.com'' [''b@x.com''] False ''T'' = Inr m \<and> port m = 25)
   \<and> (\<exists>m. New ''localhost'' 587 ''a@x.com'' [''b@x.com''] True ''T'' = Inr m \<and> port m = 587)"
  using New_checks [of "''''" 25 "''a@x.com''" "[''b@x.com'']" False "''T''"]
    New_checks [of "''localhost''" 25 "''''" "[''b@x.com'']" False "''T''"]
    New_checks [of "''localhost''" 25 "''a@x.com''" "[]" False "''T''"]
    New_checks [of "''localhost''" 0 "''a@x.com''" "[''b@x.com'']" False "''T''"]
    New_checks [of "''localhost''" "- 7" "''a@x.com''" "[''b@x.com'']" False "''T''"]
    New_checks [of "''localhost''" 587 "''a@x.com''" "[''b@x.com'']" True "''T''"]
  by simp blast

text \<open>
  Claim C8, as the specification states it, has \<^verbatim>\<open>Subject\<close> leave the subject alone when
  the value is empty. The method has no such test: on the example message, whose
  subject is \<^verbatim>\<open>libsmtp - T\<close>, the empty value changes the subject.
\<close>

theorem Subject_empty_counterexample:
  "subject (Subject example_message '''') \<noteq> subject example_message"
  by (simp add: Subject_def example_message_def SetBody_def New_def)

text \<open>
  Claim C8, amended. \<^verbatim>\<open>Subject\<close> replaces the subject with the value it is given, whatever
  the value: an empty value makes the subject empty. No other field changes.
\<close>

theorem Subject_replaces:
  "subject (Subject m subject') = subject' \<and> (Subject m subject')\<lparr>subject := subject m\<rparr> = m"
  by (simp add: Subject_def)

text \<open>
  Claim C9. \<^verbatim>\<open>SetContentType\<close> with the empty string sets the content type to
  \<^verbatim>\<open>text/plain\<close>, also after an earlier call has set another value; with a string that is
  not empty it sets the content type to that string. No other field changes.
\<close>

theorem SetContentType_resets:
  "contentType (SetContentType m '''') = ''text/plain''
   \<and> contentType (SetContentType (SetContentType m ct) '''') = ''text/plain''
   \<and> (ct \<noteq> '''' \<longrightarrow> contentType (SetContentType m ct) = ct)
   \<and> (SetContentType m ct)\<lparr>contentType := contentType m\<rparr> = m"
  by (simp add: SetContentType_def)

theorem SetContentType_resets_witness:
  "''text/html'' \<noteq> ''''
   \<and> contentType (SetContentType example_message ''text/html'') = ''text/html''
   \<and> contentType (SetContentType (SetContentType example_message ''text/html'') '''') = ''text/plain''"
  using SetContentType_resets [of example_message "''text/html''"]
  by simp

section \<open>Attachments that cannot be added\<close>

text \<open>
  Claim C6. When \<^verbatim>\<open>AddAttachment\<close> fails, on an empty path or on a file that cannot be
  read, it returns the error (for the file, the error of the read as it is) and leaves
  the message as it was: nothing is added, and the three attachment maps keep every
  earlier entry.
\<close>

theorem AddAttachment_failure:
  "(pathToFile = '''' \<longrightarrow>
      AddAttachment os token m pathToFile = (Some (Errorf ''No attachment specified''), m))
   \<and> (pathToFile \<noteq> '''' \<and> ReadFile os pathToFile = Inl err \<longrightarrow>
      AddAttachment os token m pathToFile = (Some err, m))
   \<and> (fst (AddAttachment os token m pathToFile) \<noteq> None \<longrightarrow>
      snd (AddAttachment os token m pathToFile) = m
      \<and> attachments (snd (AddAttachment os token m pathToFile)) = attachments m
      \<and> attachmentLengths (snd (AddAttachment os token m pathToFile)) = attachmentLengths m
      \<and> attachmentBoundaries (snd (AddAttachment os token m pathToFile)) = attachmentBoundaries m)"
  by (simp add: AddAttachment_def Let_def split: sum.split)

theorem AddAttachment_failure_witness:
  "AddAttachment example_os ''r2d2'' (snd (AddAttachment example_os ''k3x9'' example_message ''/tmp/a.bin'')) ''''
     = (Some (Errorf ''No attachment specified''),
        snd (AddAttachment example_os ''k3x9'' example_message ''/tmp/a.bin''))
   \<and> ''/tmp/b.bin'' \<noteq> ''''
   \<and> ReadFile example_os ''/tmp/b.bin'' = Inl (PathError ''no such file or directory'')
   \<and> AddAttachment example_os ''r2d2'' (snd (AddAttachment example_os ''k3x9'' example_message ''/tmp/a.bin''))
        ''/tmp/b.bin''
     = (Some (PathError ''no such file or directory''),
        snd (AddAttachment example_os ''k3x9'' example_message ''/tmp/a.bin''))
   \<and> fst (AddAttachment example_os ''r2d2''
        (snd (AddAttachment example_os ''k3x9'' example_message ''/tmp/a.bin'')) ''/tmp/b.bin'') \<noteq> None
   \<and> attachmentBoundaries (snd (AddAttachment example_os ''r2d2''
        (snd (AddAttachment example_os ''k3x9'' example_message ''/tmp/a.bin'')) ''/tmp/b.bin''))
     = attachmentBoundaries (snd (AddAttachment example_os ''k3x9'' example_message ''/tmp/a.bin''))"
proof -
  have r: "ReadFile example_os ''/tmp/b.bin'' = Inl (PathError ''no such file or directory'')"
    by (simp add: example_os_def)
  show ?thesis
    using r
      AddAttachment_failure [of "''''" example_os "''r2d2''"
        "snd (AddAttachment example_os ''k3x9'' example_message ''/tmp/a.bin'')"]
      AddAttachment_failure [of "''/tmp/b.bin''" example_os "''r2d2''"
        "snd (AddAttachment example_os ''k3x9'' example_message ''/tmp/a.bin'')"
        "PathError ''no such file or directory''"]
    by simp
qed

section \<open>Base64\<close>

text \<open>
  The masks of the encoder are truncations, the alphabet has 64 different characters,
  none of them the padding character, and the four sextets cut from a value below
  \<open>2 ^ 24\<close> give the value back. Hence decoding inverts encoding.
\<close>

lemma and63: "(x::nat) AND 0x3F = take_bit 6 x"
  by (simp add: take_bit_eq_mask mask_eq_exp_minus_1)

lemma and255: "(x::nat) AND 0xFF = take_bit 8 x"
  by (simp add: take_bit_eq_mask mask_eq_exp_minus_1)

lemma distinct_encodeStd: "distinct encodeStd"
  by (simp add: encodeStd_def)

lemma length_encodeStd: "length encodeStd = 64"
  by (simp add: encodeStd_def)

lemma index_of_nth: "distinct xs \<Longrightarrow> i < length xs \<Longrightarrow> index_of xs (xs ! i) = Some i"
proof (induction xs arbitrary: i)
  case Nil then show ?case by simp
next
  case (Cons x xs)
  then show ?case by (cases i) auto
qed

lemma decodeMap_encodeStd: "decodeMap (encodeStd ! take_bit 6 x) = Some (take_bit 6 x)"
proof -
  have "take_bit 6 x < length encodeStd"
    using take_bit_nat_less_exp [of 6 x] by (simp add: length_encodeStd)
  then show ?thesis
    unfolding decodeMap_def by (rule index_of_nth [OF distinct_encodeStd])
qed

lemma encodeStd_not_pad: "encodeStd ! take_bit 6 (x::nat) \<noteq> CHR ''=''"
proof -
  have "take_bit 6 x < length encodeStd"
    using take_bit_nat_less_exp [of 6 x] by (simp add: length_encodeStd)
  then have "encodeStd ! take_bit 6 x \<in> set encodeStd" by simp
  moreover have "CHR ''='' \<notin> set encodeStd" by (simp add: encodeStd_def)
  ultimately show ?thesis by metis
qed


lemma quantum_bits:
  fixes val c d :: nat
  shows "take_bit 8 (drop_bit 16 (quantum (take_bit 6 (drop_bit 18 val)) (take_bit 6 (drop_bit 12 val))
           (take_bit 6 c) (take_bit 6 d))) = take_bit 8 (drop_bit 16 val)"
    and "take_bit 8 (drop_bit 8 (quantum (take_bit 6 (drop_bit 18 val)) (take_bit 6 (drop_bit 12 val))
           (take_bit 6 (drop_bit 6 val)) (take_bit 6 d))) = take_bit 8 (drop_bit 8 val)"
    and "take_bit 8 (quantum (take_bit 6 (drop_bit 18 val)) (take_bit 6 (drop_bit 12 val))
           (take_bit 6 (drop_bit 6 val)) (take_bit 6 val)) = take_bit 8 val"
  unfolding quantum_def
proof -
  show "take_bit 8 (drop_bit 16 (push_bit 18 (take_bit 6 (drop_bit 18 val)) OR
          push_bit 12 (take_bit 6 (drop_bit 12 val)) OR push_bit 6 (take_bit 6 c) OR take_bit 6 d))
        = take_bit 8 (drop_bit 16 val)"
  proof (rule bit_eqI)
    fix n :: nat
    consider "n < 2" | "2 \<le> n \<and> n < 8" | "8 \<le> n" by linarith
    then show "bit (take_bit 8 (drop_bit 16 (push_bit 18 (take_bit 6 (drop_bit 18 val)) OR
          push_bit 12 (take_bit 6 (drop_bit 12 val)) OR push_bit 6 (take_bit 6 c) OR take_bit 6 d))) n
        = bit (take_bit 8 (drop_bit 16 val)) n"
      by cases (auto simp add: bit_simps)
  qed
  show "take_bit 8 (drop_bit 8 (push_bit 18 (take_bit 6 (drop_bit 18 val)) OR
          push_bit 12 (take_bit 6 (drop_bit 12 val)) OR push_bit 6 (take_bit 6 (drop_bit 6 val)) OR
          take_bit 6 d)) = take_bit 8 (drop_bit 8 val)"
  proof (rule bit_eqI)
    fix n :: nat
    consider "n < 4" | "4 \<le> n \<and> n < 8" | "8 \<le> n" by linarith
    then show "bit (take_bit 8 (drop_bit 8 (push_bit 18 (take_bit 6 (drop_bit 18 val)) OR
          push_bit 12 (take_bit 6 (drop_bit 12 val)) OR push_bit 6 (take_bit 6 (drop_bit 6 val)) OR
          take_bit 6 d))) n = bit (take_bit 8 (drop_bit 8 val)) n"
      by cases (auto simp add: bit_simps)
  qed
  show "take_bit 8 (push_bit 18 (take_bit 6 (drop_bit 18 val)) OR
          push_bit 12 (take_bit 6 (drop_bit 12 val)) OR push_bit 6 (take_bit 6 (drop_bit 6 val)) OR
          take_bit 6 val) = take_bit 8 val"
  proof (rule bit_eqI)
    fix n :: nat
    consider "n < 6" | "6 \<le> n \<and> n < 8" | "8 \<le> n" by linarith
    then show "bit (take_bit 8 (push_bit 18 (take_bit 6 (drop_bit 18 val)) OR
          push_bit 12 (take_bit 6 (drop_bit 12 val)) OR push_bit 6 (take_bit 6 (drop_bit 6 val)) OR
          take_bit 6 val)) n = bit (take_bit 8 val) n"
      by cases (auto simp add: bit_simps)
  qed
qed

lemma of_char_take_bit: "take_bit 8 (of_char c :: nat) = of_char c"
  by (simp add: take_bit_eq_mod)

lemma bit_of_char_lt: "bit (of_char c :: nat) n \<Longrightarrow> n < 8"
proof (rule ccontr)
  assume b: "bit (of_char c :: nat) n" and "\<not> n < 8"
  have "bit (take_bit 8 (of_char c :: nat)) n = bit (of_char c :: nat) n"
    by (simp only: of_char_take_bit)
  with b \<open>\<not> n < 8\<close> show False by (simp add: bit_simps)
qed

lemma val_bytes:
  fixes s0 s1 s2 :: char
  shows "take_bit 8 (drop_bit 16 (push_bit 16 (of_char s0 :: nat) OR push_bit 8 (of_char s1) OR of_char s2)) = of_char s0"
    and "take_bit 8 (drop_bit 8 (push_bit 16 (of_char s0 :: nat) OR push_bit 8 (of_char s1) OR of_char s2)) = of_char s1"
    and "take_bit 8 (push_bit 16 (of_char s0 :: nat) OR push_bit 8 (of_char s1) OR of_char s2) = of_char s2"
    and "take_bit 8 (drop_bit 16 (push_bit 16 (of_char s0 :: nat) OR push_bit 8 (of_char s1))) = of_char s0"
    and "take_bit 8 (drop_bit 8 (push_bit 16 (of_char s0 :: nat) OR push_bit 8 (of_char s1))) = of_char s1"
    and "take_bit 8 (drop_bit 16 (push_bit 16 (of_char s0 :: nat))) = of_char s0"
  by (rule bit_eqI; auto simp add: bit_simps dest: bit_of_char_lt)+


lemma Decode_quad:
  fixes val :: nat
  assumes "Decode rest = Some out"
  shows "Decode (encodeStd ! take_bit 6 (drop_bit 18 val) # encodeStd ! take_bit 6 (drop_bit 12 val) #
           encodeStd ! take_bit 6 (drop_bit 6 val) # encodeStd ! take_bit 6 val # rest)
         = Some (char_of (take_bit 8 (drop_bit 16 val)) # char_of (take_bit 8 (drop_bit 8 val)) #
             char_of (take_bit 8 val) # out)"
  using assms
  by (simp add: decodeMap_encodeStd encodeStd_not_pad byte_at_def and255 quantum_bits
      del: take_bit_of_0 drop_bit_of_0)

lemma Decode_pad1:
  fixes val :: nat
  shows "Decode [encodeStd ! take_bit 6 (drop_bit 18 val), encodeStd ! take_bit 6 (drop_bit 12 val),
           encodeStd ! take_bit 6 (drop_bit 6 val), CHR ''='']
         = Some [char_of (take_bit 8 (drop_bit 16 val)), char_of (take_bit 8 (drop_bit 8 val))]"
  using quantum_bits(1) [of val "drop_bit 6 val" 0] quantum_bits(2) [of val 0]
  by (simp add: decodeMap_encodeStd encodeStd_not_pad byte_at_def and255)

lemma Decode_pad2:
  fixes val :: nat
  shows "Decode [encodeStd ! take_bit 6 (drop_bit 18 val), encodeStd ! take_bit 6 (drop_bit 12 val),
           CHR ''='', CHR ''='']
         = Some [char_of (take_bit 8 (drop_bit 16 val))]"
  using quantum_bits(1) [of val 0 0]
  by (simp add: decodeMap_encodeStd encodeStd_not_pad byte_at_def and255)

lemma Decode_Encode: "Decode (Encode src) = Some src"
proof (induction src rule: Encode.induct)
  case (1 s0 s1 s2 src)
  define val where "val = push_bit 16 (of_char s0 :: nat) OR push_bit 8 (of_char s1) OR of_char s2"
  have "Encode (s0 # s1 # s2 # src) =
      encodeStd ! take_bit 6 (drop_bit 18 val) # encodeStd ! take_bit 6 (drop_bit 12 val) #
      encodeStd ! take_bit 6 (drop_bit 6 val) # encodeStd ! take_bit 6 val # Encode src"
    by (simp only: Encode.simps Let_def and63 val_def)
  then show ?case
    by (simp only: Decode_quad [OF "1.IH"] val_def val_bytes char_of_char)
next
  case (2 s0 s1)
  define val where "val = push_bit 16 (of_char s0 :: nat) OR push_bit 8 (of_char s1)"
  have "Encode [s0, s1] =
      [encodeStd ! take_bit 6 (drop_bit 18 val), encodeStd ! take_bit 6 (drop_bit 12 val),
       encodeStd ! take_bit 6 (drop_bit 6 val), CHR ''='']"
    by (simp only: Encode.simps Let_def and63 val_def)
  then show ?case
    by (simp only: Decode_pad1 val_def val_bytes char_of_char)
next
  case (3 s0)
  define val where "val = push_bit 16 (of_char s0 :: nat)"
  have "Encode [s0] =
      [encodeStd ! take_bit 6 (drop_bit 18 val), encodeStd ! take_bit 6 (drop_bit 12 val),
       CHR ''='', CHR ''='']"
    by (simp only: Encode.simps Let_def and63 val_def)
  then show ?case
    by (simp only: Decode_pad2 val_def val_bytes char_of_char)
next
  case 4
  show ?case by simp
qed

lemma length_Encode: "int (length (Encode src)) = EncodedLen (int (length src))"
proof (induction src rule: Encode.induct)
  case (1 s0 s1 s2 src)
  have "(int (length src) + 5) div 3 = (int (length src) + 2) div 3 + 1"
    by presburger
  with 1 show ?case
    by (simp add: Let_def EncodedLen_def algebra_simps)
qed (simp_all add: Let_def EncodedLen_def)

lemma EncodedLen_grows: "0 < n \<Longrightarrow> n < EncodedLen n"
  unfolding EncodedLen_def by presburger

subsection \<open>What one run of build writes\<close>

lemma write_boundaries_concat:
  "write_boundaries b kvs =
     b @ concat (map (\<lambda>(k, v). (''Content-Type: multipart/mixed; boundary=\"'' @ v @ ''\"\<newline>'')
                       @ (''--'' @ v @ ''\<newline>'')) kvs)"
  by (induction kvs arbitrary: b) auto

lemma write_attachments_concat:
  "write_attachments m b kvs = b @ concat (map (\<lambda>(k, v). attachment_block m k v) kvs)"
  by (induction kvs arbitrary: b) auto

lemma visit_append: "visit mp (xs @ ys) = visit mp xs @ visit mp ys"
  by (simp add: visit_def map_filter_def)

lemma visit_Cons_Some:
  "Mapping.lookup mp k = Some v \<Longrightarrow> visit mp (k # ks) = (k, v) # visit mp ks"
  by (simp add: visit_def)

lemma visit_split:
  assumes "k \<in> set ks" and "Mapping.lookup mp k = Some v"
  shows "\<exists>xs ys. visit mp ks = xs @ (k, v) # ys"
proof -
  from assms(1) obtain as bs where "ks = as @ k # bs"
    by (auto dest: split_list)
  then have "visit mp ks = visit mp as @ (k, v) # visit mp bs"
    by (simp add: visit_append visit_Cons_Some [OF assms(2)])
  then show ?thesis by blast
qed

lemma build_empty_body:
  "body m = [] \<Longrightarrow> build ks ks' m = (Some (Errorf ''Message body is empty''), m)"
  by (simp add: build_def)

lemma build_ok:
  "body m \<noteq> [] \<Longrightarrow>
     build ks ks' m = (None, m\<lparr>buf := buf (snd (build ks ks' m)), buildCalled := True\<rparr>)"
  by (simp add: build_def Let_def)

lemma build_writes_blocks:
  assumes "body m \<noteq> []" and "\<not> Mapping.is_empty (attachments m)"
  shows "\<exists>pre. buf (snd (build ks ks' m)) =
           pre @ concat (map (\<lambda>(k, v). attachment_block m k v) (visit (attachmentBoundaries m) ks'))"
  using assms by (simp add: build_def Let_def write_attachments_concat)

lemma build_writes_block:
  assumes "body m \<noteq> []" and "\<not> Mapping.is_empty (attachments m)"
    and "k \<in> set ks'" and "Mapping.lookup (attachmentBoundaries m) k = Some v"
  shows "\<exists>pre post. buf (snd (build ks ks' m)) = pre @ attachment_block m k v @ post"
proof -
  from build_writes_blocks [OF assms(1,2)] obtain pre where
    b: "buf (snd (build ks ks' m)) =
          pre @ concat (map (\<lambda>(k, v). attachment_block m k v) (visit (attachmentBoundaries m) ks'))"
    by blast
  from visit_split [OF assms(3,4)] obtain xs ys where
    "visit (attachmentBoundaries m) ks' = xs @ (k, v) # ys"
    by blast
  with b have "buf (snd (build ks ks' m)) =
      (pre @ concat (map (\<lambda>(k, v). attachment_block m k v) xs)) @ attachment_block m k v
        @ concat (map (\<lambda>(k, v). attachment_block m k v) ys)"
    by simp
  then show ?thesis by blast
qed

lemma AddAttachment_ok:
  assumes "pathToFile \<noteq> ''''" and "ReadFile os pathToFile = Inr B"
  shows "AddAttachment os token m pathToFile =
    (None,
     m\<lparr>attachments := Mapping.update (Base os pathToFile) (Encode B) (attachments m),
       attachmentLengths :=
         Mapping.update (Base os pathToFile) (EncodedLen (int (length B))) (attachmentLengths m),
       attachmentBoundaries := Mapping.update (Base os pathToFile) token (attachmentBoundaries m)\<rparr>)"
  using assms by (simp add: AddAttachment_def Let_def)

lemma build_after_AddAttachment:
  fixes os token m pathToFile
  defines "m' \<equiv> snd (AddAttachment os token m pathToFile)"
  assumes "pathToFile \<noteq> ''''" and "ReadFile os pathToFile = Inr B" and "body m \<noteq> []"
    and "range_order (attachmentBoundaries m') ks'"
  shows "fst (AddAttachment os token m pathToFile) = None"
    and "fst (build ks ks' m') = None"
    and "content_of m' (Base os pathToFile) = Encode B"
    and "length_of m' (Base os pathToFile) = EncodedLen (int (length B))"
    and "\<exists>pre post. buf (snd (build ks ks' m')) =
           pre @ attachment_block m' (Base os pathToFile) token @ post"
proof -
  note ok = AddAttachment_ok [OF assms(2,3), of token m]
  show "fst (AddAttachment os token m pathToFile) = None"
    by (simp add: ok)
  have body: "body m' \<noteq> []"
    using assms(4) by (simp add: m'_def ok)
  then show "fst (build ks ks' m') = None"
    using build_ok [OF body, of ks ks'] by (cases "build ks ks' m'") simp
  show "content_of m' (Base os pathToFile) = Encode B"
    by (simp add: m'_def ok content_of_def)
  show "length_of m' (Base os pathToFile) = EncodedLen (int (length B))"
    by (simp add: m'_def ok length_of_def)
  have ne: "\<not> Mapping.is_empty (attachments m')"
    by (simp add: m'_def ok)
  have look: "Mapping.lookup (attachmentBoundaries m') (Base os pathToFile) = Some token"
    by (simp add: m'_def ok)
  have "Base os pathToFile \<in> Mapping.keys (attachmentBoundaries m')"
    by (simp add: m'_def ok)
  with assms(5) have mem: "Base os pathToFile \<in> set ks'"
    by (simp add: range_order_def)
  show "\<exists>pre post. buf (snd (build ks ks' m')) =
           pre @ attachment_block m' (Base os pathToFile) token @ post"
    by (rule build_writes_block [OF body ne mem look])
qed

section \<open>Attachments in the serialized message\<close>

text \<open>
  Claim C4. Let a file hold the bytes \<open>B\<close>, let \<^verbatim>\<open>AddAttachment\<close> succeed on it, and let
  \<^verbatim>\<open>build\<close> run on the message, in whatever order \<^verbatim>\<open>range\<close> visits the attachments.
  Then both calls succeed and the output holds the block of the attachment: its four
  header lines, a blank line, the base64 text, and the closing marker of its boundary.
  Decoding the base64 text gives \<open>B\<close>.
\<close>

theorem attachment_round_trip:
  fixes os token m pathToFile
  defines "m' \<equiv> snd (AddAttachment os token m pathToFile)"
  assumes "pathToFile \<noteq> ''''" and "ReadFile os pathToFile = Inr B" and "body m \<noteq> []"
    and "range_order (attachmentBoundaries m') ks'"
  shows "fst (AddAttachment os token m pathToFile) = None
    \<and> fst (build ks ks' m') = None
    \<and> (\<exists>pre post. buf (snd (build ks ks' m')) =
          pre @ attachment_block m' (Base os pathToFile) token @ post)
    \<and> attachment_block m' (Base os pathToFile) token =
          (''\<newline>\<newline>--'' @ token @ ''\<newline>'')
          @ (''Content-Type: application/octet-stream; name=\"'' @ Base os pathToFile @ ''\"\<newline>'')
          @ (''Content-Description: '' @ Base os pathToFile @ ''\<newline>'')
          @ (''Content-Disposition: attachment; filename=\"'' @ Base os pathToFile @ ''\"; size=''
               @ itoa (EncodedLen (int (length B))) @ ''\<newline>'')
          @ ''Content-Transfer-Encoding: base64\<newline>\<newline>''
          @ Encode B
          @ (''\<newline>--'' @ token @ ''--'')
    \<and> Decode (Encode B) = Some B"
proof -
  note facts = build_after_AddAttachment [OF assms(2,3,4) assms(5) [unfolded m'_def], folded m'_def]
  have "attachment_block m' (Base os pathToFile) token =
          (''\<newline>\<newline>--'' @ token @ ''\<newline>'')
          @ (''Content-Type: application/octet-stream; name=\"'' @ Base os pathToFile @ ''\"\<newline>'')
          @ (''Content-Description: '' @ Base os pathToFile @ ''\<newline>'')
          @ (''Content-Disposition: attachment; filename=\"'' @ Base os pathToFile @ ''\"; size=''
               @ itoa (EncodedLen (int (length B))) @ ''\<newline>'')
          @ ''Content-Transfer-Encoding: base64\<newline>\<newline>''
          @ Encode B
          @ (''\<newline>--'' @ token @ ''--'')"
    unfolding attachment_block_def facts(3) facts(4) ..
  with facts(1) facts(2) [of ks] facts(5) [of ks] Decode_Encode [of B] show ?thesis
    by blast
qed

theorem attachment_round_trip_witness:
  "''/tmp/a.bin'' \<noteq> ''''
   \<and> ReadFile example_os ''/tmp/a.bin'' = Inr ''0123456789''
   \<and> body example_message \<noteq> []
   \<and> range_order
        (attachmentBoundaries (snd (AddAttachment example_os ''k3x9'' example_message ''/tmp/a.bin'')))
        [''a.bin'']
   \<and> fst (build [] [''a.bin''] (snd (AddAttachment example_os ''k3x9'' example_message ''/tmp/a.bin'')))
       = None
   \<and> (\<exists>pre post.
        buf (snd (build [] [''a.bin''] (snd (AddAttachment example_os ''k3x9'' example_message ''/tmp/a.bin''))))
        = pre @ attachment_block (snd (AddAttachment example_os ''k3x9'' example_message ''/tmp/a.bin''))
                  (Base example_os ''/tmp/a.bin'') ''k3x9'' @ post)
   \<and> Decode (Encode ''0123456789'') = Some ''0123456789''"
proof -
  have h1: "''/tmp/a.bin'' \<noteq> ''''"
    by simp
  have h2: "ReadFile example_os ''/tmp/a.bin'' = Inr ''0123456789''"
    by (simp add: example_os_def)
  have h3: "body example_message \<noteq> []"
    by (simp add: example_message_def SetBody_def)
  have h4: "range_order
      (attachmentBoundaries (snd (AddAttachment example_os ''k3x9'' example_message ''/tmp/a.bin'')))
      [''a.bin'']"
    by (simp add: range_order_def AddAttachment_def example_os_def unix_Base_def Let_def
        example_message_def SetBody_def New_def)
  show ?thesis
    using h1 h2 h3 h4 attachment_round_trip [OF h1 h2 h3 h4, where ks = "[]"]
    by blast
qed

text \<open>
  Claim C5. In the same situation the \<^verbatim>\<open>Content-Disposition\<close> line of the attachment, as
  the output holds it, gives as \<^verbatim>\<open>size=\<close> the encoded length of the content,
  \<^verbatim>\<open>EncodedLen\<close> of the number of bytes of the file. That is the length of the base64
  text, and for a file that is not empty it is not the length of the file.
\<close>

theorem size_is_encoded_length:
  fixes os token m pathToFile
  defines "m' \<equiv> snd (AddAttachment os token m pathToFile)"
  assumes "pathToFile \<noteq> ''''" and "ReadFile os pathToFile = Inr B" and "body m \<noteq> []"
    and "range_order (attachmentBoundaries m') ks'"
  shows "(\<exists>pre post. buf (snd (build ks ks' m')) =
            pre @ (''Content-Disposition: attachment; filename=\"'' @ Base os pathToFile @ ''\"; size=''
                     @ itoa (EncodedLen (int (length B))) @ ''\<newline>'') @ post)
    \<and> Mapping.lookup (attachmentLengths m') (Base os pathToFile) = Some (EncodedLen (int (length B)))
    \<and> EncodedLen (int (length B)) = int (length (Encode B))
    \<and> (B \<noteq> [] \<longrightarrow> EncodedLen (int (length B)) \<noteq> int (length B))"
proof -
  note facts = build_after_AddAttachment [OF assms(2,3,4) assms(5) [unfolded m'_def], folded m'_def]
  from facts(5) [of ks] obtain pre post where
    b: "buf (snd (build ks ks' m')) = pre @ attachment_block m' (Base os pathToFile) token @ post"
    by blast
  have "buf (snd (build ks ks' m')) =
      (pre @ (''\<newline>\<newline>--'' @ token @ ''\<newline>'')
         @ (''Content-Type: application/octet-stream; name=\"'' @ Base os pathToFile @ ''\"\<newline>'')
         @ (''Content-Description: '' @ Base os pathToFile @ ''\<newline>''))
      @ (''Content-Disposition: attachment; filename=\"'' @ Base os pathToFile @ ''\"; size=''
           @ itoa (EncodedLen (int (length B))) @ ''\<newline>'')
      @ (''Content-Transfer-Encoding: base64\<newline>\<newline>'' @ content_of m' (Base os pathToFile)
           @ (''\<newline>--'' @ token @ ''--'') @ post)"
    unfolding b attachment_block_def facts(4) by simp
  then have line: "\<exists>pre post. buf (snd (build ks ks' m')) =
            pre @ (''Content-Disposition: attachment; filename=\"'' @ Base os pathToFile @ ''\"; size=''
                     @ itoa (EncodedLen (int (length B))) @ ''\<newline>'') @ post"
    by blast
  have stored: "Mapping.lookup (attachmentLengths m') (Base os pathToFile)
      = Some (EncodedLen (int (length B)))"
    by (simp add: m'_def AddAttachment_ok [OF assms(2,3)])
  have "B \<noteq> [] \<longrightarrow> EncodedLen (int (length B)) \<noteq> int (length B)"
    using EncodedLen_grows [of "int (length B)"] by auto
  with line stored length_Encode [of B] show ?thesis
    by simp
qed

theorem size_is_encoded_length_witness:
  "''/tmp/a.bin'' \<noteq> ''''
   \<and> ReadFile example_os ''/tmp/a.bin'' = Inr ''0123456789''
   \<and> body example_message \<noteq> []
   \<and> range_order
        (attachmentBoundaries (snd (AddAttachment example_os ''k3x9'' example_message ''/tmp/a.bin'')))
        [''a.bin'']
   \<and> ''0123456789'' \<noteq> ''''
   \<and> itoa (EncodedLen (int (length ''0123456789''))) = ''16''
   \<and> (\<exists>pre post.
        buf (snd (build [] [''a.bin''] (snd (AddAttachment example_os ''k3x9'' example_message ''/tmp/a.bin''))))
        = pre @ (''Content-Disposition: attachment; filename=\"'' @ Base example_os ''/tmp/a.bin''
                   @ ''\"; size='' @ itoa (EncodedLen (int (length ''0123456789''))) @ ''\<newline>'')
              @ post)
   \<and> EncodedLen (int (length ''0123456789'')) \<noteq> int (length ''0123456789'')"
proof -
  have h1: "''/tmp/a.bin'' \<noteq> ''''"
    by simp
  have h2: "ReadFile example_os ''/tmp/a.bin'' = Inr ''0123456789''"
    by (simp add: example_os_def)
  have h3: "body example_message \<noteq> []"
    by (simp add: example_message_def SetBody_def)
  have h4: "range_order
      (attachmentBoundaries (snd (AddAttachment example_os ''k3x9'' example_message ''/tmp/a.bin'')))
      [''a.bin'']"
    by (simp add: range_order_def AddAttachment_def example_os_def unix_Base_def Let_def
        example_message_def SetBody_def New_def)
  have h5: "''0123456789'' \<noteq> ''''"
    by simp
  have h6: "itoa (EncodedLen (int (length ''0123456789''))) = ''16''"
    by (simp add: EncodedLen_def itoa_def utoa.simps)
  show ?thesis
    using h1 h2 h3 h4 h5 h6 size_is_encoded_length [OF h1 h2 h3 h4, where ks = "[]"]
    by blast
qed

section \<open>Serialization and the body\<close>

lemma build_body [simp]: "body (snd (build ks ks' m)) = body m"
  by (simp add: build_def Let_def)

lemma build_buildCalled [simp]:
  "buildCalled (snd (build ks ks' m)) \<longleftrightarrow> body m \<noteq> [] \<or> buildCalled m"
  by (simp add: build_def Let_def)

lemma build_envelope [simp]:
  "server (snd (build ks ks' m)) = server m"
  "port (snd (build ks ks' m)) = port m"
  "tls (snd (build ks ks' m)) = tls m"
  "from_addr (snd (build ks ks' m)) = from_addr m"
  "to_addrs (snd (build ks ks' m)) = to_addrs m"
  by (simp_all add: build_def Let_def)

lemma smtpUri_build [simp]: "smtpUri (snd (build ks ks' m)) = smtpUri m"
  by (simp add: smtpUri_def)

lemma Bytes_message:
  "snd (Bytes ks ks' m) = (if buildCalled m then m else snd (build ks ks' m))"
  by (simp add: Bytes_def split: prod.split)

lemma Send_message: "snd (snd (Send srv ks ks' m)) = snd (build ks ks' m)"
  by (simp add: Send_def Let_def split: prod.split option.split)

lemma AddAttachment_body [simp]:
  "body (snd (AddAttachment os token m pathToFile)) = body m"
  "buildCalled (snd (AddAttachment os token m pathToFile)) = buildCalled m"
  by (simp_all add: AddAttachment_def Let_def split: sum.split)

lemma reachable_built_body: "reachable m \<Longrightarrow> buildCalled m \<Longrightarrow> body m \<noteq> []"
proof (induction rule: reachable.induct)
  case (reach_New server' port' from' to' usetls now m)
  then show ?case
    by (auto simp: New_def Let_def split: if_splits)
next
  case (reach_Bytes m ks ks')
  then show ?case
    by (auto simp: Bytes_message split: if_splits)
next
  case (reach_Send m srv ks ks')
  then show ?case
    by (auto simp: Send_message)
qed (auto simp: SetBody_def SetBodyBytes_def SetContentType_def Subject_def)

subsection \<open>The calls of Send\<close>

lemma recipients_calls:
  "\<exists>r. snd (recipients srv t vs) = t @ r \<and> set r \<subseteq> Rcpt ` set vs \<union> {Reset, Quit}"
proof (induction vs arbitrary: t)
  case Nil
  show ?case by simp
next
  case (Cons v vs)
  show ?case
  proof (cases "reply srv (t @ [Rcpt v])")
    case None
    from Cons [of "t @ [Rcpt v]"] obtain r where
      "snd (recipients srv (t @ [Rcpt v]) vs) = (t @ [Rcpt v]) @ r"
      and "set r \<subseteq> Rcpt ` set vs \<union> {Reset, Quit}"
      by blast
    with None have "snd (recipients srv t (v # vs)) = t @ (Rcpt v # r)
        \<and> set (Rcpt v # r) \<subseteq> Rcpt ` set (v # vs) \<union> {Reset, Quit}"
      by (auto simp: Let_def)
    then show ?thesis by blast
  next
    case (Some err)
    then have "snd (recipients srv t (v # vs)) = t @ [Rcpt v, Reset, Quit]
        \<and> set [Rcpt v, Reset, Quit] \<subseteq> Rcpt ` set (v # vs) \<union> {Reset, Quit}"
      by (simp add: Let_def)
    then show ?thesis by blast
  qed
qed

lemma recipients_accepted:
  "\<forall>t. reply srv t = None \<Longrightarrow> recipients srv t vs = (None, t @ map Rcpt vs)"
  by (induction vs arbitrary: t) (simp_all add: Let_def)

lemma transmit_calls:
  "\<exists>r. snd (transmit srv m t) = t @ r \<and> set r \<subseteq> {Data, Write (buf m), Close, Reset, Quit}"
proof -
  have "snd (transmit srv m t) = t @ drop (length t) (snd (transmit srv m t))
      \<and> set (drop (length t) (snd (transmit srv m t))) \<subseteq> {Data, Write (buf m), Close, Reset, Quit}"
    by (simp add: transmit_def Let_def split: option.split)
  then show ?thesis by blast
qed

lemma transmit_accepted:
  "\<forall>t. reply srv t = None \<Longrightarrow>
     transmit srv m t = (None, t @ [Data, Write (buf m), Close, Quit])"
  by (simp add: transmit_def Let_def)

lemma Send_empty_body:
  "body m = [] \<Longrightarrow> Send srv ks ks' m = (Some (Errorf ''Message body is empty''), [], m)"
  by (simp add: Send_def build_empty_body)

lemma Send_built:
  assumes "body m \<noteq> []"
  shows "Send srv ks ks' m =
    (case reply srv [Dial (smtpUri m)] of
       Some err \<Rightarrow> (Some err, [Dial (smtpUri m)], snd (build ks ks' m))
     | None \<Rightarrow>
         (case upgrade srv (snd (build ks ks' m)) [Dial (smtpUri m)] of
            (Some err, t1) \<Rightarrow> (Some err, t1, snd (build ks ks' m))
          | (None, t1) \<Rightarrow>
              (case reply srv (t1 @ [Mail (from_addr m)]) of
                 Some err \<Rightarrow> (Some err, t1 @ [Mail (from_addr m)] @ [Reset, Quit], snd (build ks ks' m))
               | None \<Rightarrow>
                   (case recipients srv (t1 @ [Mail (from_addr m)]) (to_addrs m) of
                      (Some err, t3) \<Rightarrow> (Some err, t3, snd (build ks ks' m))
                    | (None, t3) \<Rightarrow>
                        (fst (transmit srv (snd (build ks ks' m)) t3),
                         snd (transmit srv (snd (build ks ks' m)) t3),
                         snd (build ks ks' m))))))"
proof -
  obtain m' where b: "build ks ks' m = (None, m')"
    using build_ok [OF assms, of ks ks'] by blast
  then have m': "snd (build ks ks' m) = m'"
    by simp
  have env: "smtpUri m' = smtpUri m" "from_addr m' = from_addr m" "to_addrs m' = to_addrs m"
    using smtpUri_build [of ks ks' m] build_envelope [of ks ks' m] by (simp_all add: m')
  show ?thesis
    unfolding m' by (simp add: Send_def b env Let_def split: option.split prod.split)
qed

lemma upgrade_calls: "\<exists>r. snd (upgrade srv m t) = t @ r"
proof -
  have "snd (upgrade srv m t) = t @ drop (length t) (snd (upgrade srv m t))"
    by (simp add: upgrade_def Let_def split: option.split)
  then show ?thesis by blast
qed

lemma Send_after_upgrade:
  assumes "body m \<noteq> []" and "reply srv [Dial (smtpUri m)] = None"
    and "upgrade srv (snd (build ks ks' m)) [Dial (smtpUri m)] = (None, t1)"
  shows "\<exists>r. fst (snd (Send srv ks ks' m)) = t1 @ Mail (from_addr m) # r
           \<and> set r \<subseteq> Rcpt ` set (to_addrs m)
                 \<union> {Data, Write (buf (snd (build ks ks' m))), Close, Reset, Quit}"
proof -
  let ?m' = "snd (build ks ks' m)"
  let ?t2 = "t1 @ [Mail (from_addr m)]"
  let ?allowed = "Rcpt ` set (to_addrs m) \<union> {Data, Write (buf ?m'), Close, Reset, Quit}"
  note S = Send_built [OF assms(1), of srv ks ks']
  show ?thesis
  proof (cases "reply srv ?t2")
    case (Some err)
    with assms(2,3) have "fst (snd (Send srv ks ks' m)) = t1 @ Mail (from_addr m) # [Reset, Quit]"
      by (simp add: S)
    then show ?thesis by auto
  next
    case None
    obtain e3 t3 where rc: "recipients srv ?t2 (to_addrs m) = (e3, t3)"
      by force
    with recipients_calls [of srv ?t2 "to_addrs m"] obtain r3 where
      t3: "t3 = ?t2 @ r3" and r3: "set r3 \<subseteq> Rcpt ` set (to_addrs m) \<union> {Reset, Quit}"
      by auto
    show ?thesis
    proof (cases e3)
      case (Some err)
      with assms(2,3) None rc have "fst (snd (Send srv ks ks' m)) = t1 @ Mail (from_addr m) # r3"
        by (simp add: S t3)
      with r3 show ?thesis by auto
    next
      case None' : None
      from transmit_calls [of srv ?m' t3] obtain r4 where
        t4: "snd (transmit srv ?m' t3) = t3 @ r4"
        and r4: "set r4 \<subseteq> {Data, Write (buf ?m'), Close, Reset, Quit}"
        by blast
      from assms(2,3) None None' rc
      have "fst (snd (Send srv ks ks' m)) = t1 @ Mail (from_addr m) # (r3 @ r4)"
        by (simp add: S t4) (simp add: t3)
      moreover from r3 r4 have "set (r3 @ r4) \<subseteq> ?allowed"
        by auto
      ultimately show ?thesis by blast
    qed
  qed
qed

lemma Send_accepted:
  assumes "body m \<noteq> []" and "\<forall>t. reply srv t = None"
    and "upgrade srv (snd (build ks ks' m)) [Dial (smtpUri m)] = (None, t1)"
  shows "Send srv ks ks' m =
    (None,
     t1 @ [Mail (from_addr m)] @ map Rcpt (to_addrs m)
        @ [Data, Write (buf (snd (build ks ks' m))), Close, Quit],
     snd (build ks ks' m))"
  using assms(2,3)
  by (simp add: Send_built [OF assms(1)] recipients_accepted transmit_accepted)

lemma Send_dials:
  assumes "body m \<noteq> []"
  shows "\<exists>calls. fst (snd (Send srv ks ks' m)) = Dial (smtpUri m) # calls"
proof (cases "reply srv [Dial (smtpUri m)]")
  case (Some err)
  then show ?thesis
    by (simp add: Send_built [OF assms])
next
  case None
  obtain e1 t1 where u: "upgrade srv (snd (build ks ks' m)) [Dial (smtpUri m)] = (e1, t1)"
    by force
  with upgrade_calls [of srv "snd (build ks ks' m)" "[Dial (smtpUri m)]"] obtain r1 where
    t1: "t1 = Dial (smtpUri m) # r1"
    by auto
  show ?thesis
  proof (cases e1)
    case (Some err)
    with None u t1 show ?thesis
      by (simp add: Send_built [OF assms])
  next
    case None' : None
    from Send_after_upgrade [OF assms None u [unfolded None']] t1 show ?thesis
      by auto
  qed
qed
text \<open>
  Claim C3. With an empty body \<^verbatim>\<open>build\<close> fails with the empty-body error and leaves the
  message as it was, and so does \<^verbatim>\<open>Send\<close>, which makes no call; so does \<^verbatim>\<open>Bytes\<close> on every
  message a caller can hold (on those \<^verbatim>\<open>buildCalled\<close> is not set while the body is empty). \<^verbatim>\<open>SetBody\<close> and \<^verbatim>\<open>SetBodyBytes\<close> with input that is not empty
  make the body non-empty, no method empties it again, and with a non-empty body
  \<^verbatim>\<open>build\<close> and \<^verbatim>\<open>Bytes\<close> return no error and \<^verbatim>\<open>Send\<close> goes on to dial the server.
\<close>

theorem body_decides_serialization:
  "(body m = [] \<longrightarrow>
      build ks ks' m = (Some (Errorf ''Message body is empty''), m)
      \<and> Send srv ks ks' m = (Some (Errorf ''Message body is empty''), [], m))
   \<and> (body m = [] \<and> (reachable m \<or> \<not> buildCalled m) \<longrightarrow>
      Bytes ks ks' m = ((buf m, Some (Errorf ''Message body is empty'')), m))
   \<and> (data \<noteq> [] \<longrightarrow>
      fst (build ks ks' (SetBody m data)) = None
      \<and> fst (build ks ks' (SetBodyBytes m data)) = None
      \<and> snd (fst (Bytes ks ks' (SetBody m data))) = None
      \<and> snd (fst (Bytes ks ks' (SetBodyBytes m data))) = None)
   \<and> (body m \<noteq> [] \<longrightarrow>
      fst (build ks ks' m) = None
      \<and> snd (fst (Bytes ks ks' m)) = None
      \<and> (\<exists>calls. fst (snd (Send srv ks ks' m)) = Dial (smtpUri m) # calls)
      \<and> body (SetBody m data) \<noteq> [] \<and> body (SetBodyBytes m data) \<noteq> []
      \<and> body (SetContentType m ct) \<noteq> [] \<and> body (Subject m subject') \<noteq> []
      \<and> body (snd (AddAttachment os token m pathToFile)) \<noteq> []
      \<and> body (snd (Bytes ks ks' m)) \<noteq> []
      \<and> body (snd (snd (Send srv ks ks' m))) \<noteq> [])"
proof -
  have ok: "fst (build ks ks' x) = None \<and> snd (fst (Bytes ks ks' x)) = None"
    if "body x \<noteq> []" for x
    using build_ok [OF that, of ks ks']
    by (cases "build ks ks' x") (simp add: Bytes_def)
  have empty_Bytes: "Bytes ks ks' m = ((buf m, Some (Errorf ''Message body is empty'')), m)"
    if "body m = []" and "reachable m \<or> \<not> buildCalled m"
  proof -
    from reachable_built_body [of m] that have "\<not> buildCalled m"
      by blast
    with that(1) show ?thesis
      by (simp add: Bytes_def build_empty_body)
  qed
  have set1: "fst (build ks ks' (SetBody m data)) = None
      \<and> snd (fst (Bytes ks ks' (SetBody m data))) = None" if "data \<noteq> []"
    using that by (intro ok) (simp add: SetBody_def)
  have set2: "fst (build ks ks' (SetBodyBytes m data)) = None
      \<and> snd (fst (Bytes ks ks' (SetBodyBytes m data))) = None" if "data \<noteq> []"
    using that by (intro ok) (simp add: SetBodyBytes_def)
  have keep: "body (SetBody m data) \<noteq> [] \<and> body (SetBodyBytes m data) \<noteq> []
      \<and> body (SetContentType m ct) \<noteq> [] \<and> body (Subject m subject') \<noteq> []
      \<and> body (snd (AddAttachment os token m pathToFile)) \<noteq> []
      \<and> body (snd (Bytes ks ks' m)) \<noteq> []
      \<and> body (snd (snd (Send srv ks ks' m))) \<noteq> []" if "body m \<noteq> []"
    using that
    by (simp add: SetBody_def SetBodyBytes_def SetContentType_def Subject_def Bytes_message
        Send_message)
  show ?thesis
    using build_empty_body [of m ks ks'] Send_empty_body [of m srv ks ks'] empty_Bytes
      set1 set2 ok [of m] Send_dials [of m srv ks ks'] keep
    by blast
qed

theorem body_decides_serialization_witness:
  "body (projr (New ''localhost'' 0 ''a@x.com'' [''b@x.com''] False ''T'')) = []
   \<and> reachable (projr (New ''localhost'' 0 ''a@x.com'' [''b@x.com''] False ''T''))
   \<and> ''hello'' \<noteq> []
   \<and> body example_message \<noteq> []
   \<and> Bytes [] [] (projr (New ''localhost'' 0 ''a@x.com'' [''b@x.com''] False ''T''))
       = (([], Some (Errorf ''Message body is empty'')),
          projr (New ''localhost'' 0 ''a@x.com'' [''b@x.com''] False ''T''))
   \<and> Send accepting_server [] [] (projr (New ''localhost'' 0 ''a@x.com'' [''b@x.com''] False ''T''))
       = (Some (Errorf ''Message body is empty''), [],
          projr (New ''localhost'' 0 ''a@x.com'' [''b@x.com''] False ''T''))
   \<and> snd (fst (Bytes [] []
        (SetBody (projr (New ''localhost'' 0 ''a@x.com'' [''b@x.com''] False ''T'')) ''hello''))) = None
   \<and> fst (build [] [] example_message) = None"
proof -
  let ?m0 = "projr (New ''localhost'' 0 ''a@x.com'' [''b@x.com''] False ''T'')"
  have h1: "body ?m0 = []"
    by (simp add: New_def)
  have "New ''localhost'' 0 ''a@x.com'' [''b@x.com''] False ''T'' = Inr ?m0"
    by (simp add: New_def)
  then have h2: "reachable ?m0"
    by (rule reach_New)
  have h3: "''hello'' \<noteq> []"
    by simp
  have h4: "body example_message \<noteq> []"
    by (simp add: example_message_def SetBody_def)
  have h5: "buf ?m0 = []"
    by (simp add: New_def)
  show ?thesis
    using h1 h2 h3 h4 h5
      body_decides_serialization [of ?m0 "[]" "[]" accepting_server "''hello''"]
      body_decides_serialization [of example_message "[]" "[]" accepting_server "''hello''"]
    by simp
qed
section \<open>Serializing more than once\<close>

text \<open>
  \<^verbatim>\<open>Bytes\<close> builds at most once: after a call that returned no error, every later call
  returns the same bytes and leaves the message alone.
\<close>

lemma Bytes_cached: "buildCalled m \<Longrightarrow> Bytes ks ks' m = ((buf m, None), m)"
  by (simp add: Bytes_def)

lemma Bytes_idempotent:
  assumes "Bytes ks ks' m = ((out, None), m')"
  shows "Bytes js js' m' = ((out, None), m')"
proof (cases "buildCalled m")
  case True
  with assms show ?thesis
    by (auto simp: Bytes_def)
next
  case False
  with assms have b: "build ks ks' m = (None, m')" and out: "out = buf m'"
    by (auto simp: Bytes_def split: prod.splits)
  have "body m \<noteq> []"
    using b build_empty_body [of m ks ks'] by auto
  with b have "buildCalled m'"
    using build_buildCalled [of ks ks' m] by simp
  with out show ?thesis
    by (simp add: Bytes_cached)
qed

text \<open>
  \<^verbatim>\<open>Send\<close> does not look at \<^verbatim>\<open>buildCalled\<close>: it calls \<^verbatim>\<open>build\<close>, and \<^verbatim>\<open>build\<close> writes the
  whole document after whatever the buffer holds.
\<close>

lemma build_appends:
  assumes "body m \<noteq> []"
  shows "\<exists>out. out \<noteq> [] \<and> buf (snd (build ks ks' m)) = buf m @ out"
proof -
  have "buf (snd (build ks ks' m)) = buf m @ drop (length (buf m)) (buf (snd (build ks ks' m)))
      \<and> drop (length (buf m)) (buf (snd (build ks ks' m))) \<noteq> []"
    using assms
    by (simp add: build_def Let_def write_boundaries_concat write_attachments_concat)
  then show ?thesis by blast
qed

lemma Send_appends:
  assumes "body m \<noteq> []"
  shows "\<exists>out. out \<noteq> [] \<and> buf (snd (snd (Send srv ks ks' m))) = buf m @ out"
  using build_appends [OF assms] by (simp add: Send_message)

lemma Encode_hello: "Encode ''hello'' = ''aGVsbG8=''"
  by simp (simp add: encodeStd_def)

lemma build_example: "build [] [] example_message =
    (None, example_message\<lparr>buf := example_document, buildCalled := True\<rparr>)"
  by (simp add: build_def example_message_def example_document_def SetBody_def New_def
      Encode_hello del: Encode.simps)

text \<open>
  Claim C1 fails on the code for \<^verbatim>\<open>Send\<close>. On the example message \<^verbatim>\<open>Bytes\<close> returns the
  document, and a second \<^verbatim>\<open>Bytes\<close> returns it again; a \<^verbatim>\<open>Send\<close> after that succeeds, but
  the buffer then holds the document twice, and that is what goes to the server.
\<close>

theorem Send_after_Bytes_appends:
  "fst (Bytes [] [] example_message) = (example_document, None)
   \<and> fst (Bytes [] [] (snd (Bytes [] [] example_message))) = (example_document, None)
   \<and> Send accepting_server [] [] (snd (Bytes [] [] example_message))
       = (None,
          [Dial ''localhost:25'', Mail ''a@x.com'', Rcpt ''b@x.com'', Data,
           Write (example_document @ example_document), Close, Quit],
          example_message\<lparr>buf := example_document @ example_document, buildCalled := True\<rparr>)
   \<and> example_document @ example_document \<noteq> example_document"
proof -
  have b1: "Bytes [] [] example_message
      = ((example_document, None), example_message\<lparr>buf := example_document, buildCalled := True\<rparr>)"
    by (simp add: Bytes_def build_example) (simp add: example_message_def SetBody_def New_def)
  have b2: "Bytes [] [] (example_message\<lparr>buf := example_document, buildCalled := True\<rparr>)
      = ((example_document, None), example_message\<lparr>buf := example_document, buildCalled := True\<rparr>)"
    by (simp add: Bytes_cached)
  have b3: "build [] [] (example_message\<lparr>buf := example_document, buildCalled := True\<rparr>)
      = (None, example_message\<lparr>buf := example_document @ example_document, buildCalled := True\<rparr>)"
    by (simp add: build_def example_message_def example_document_def SetBody_def New_def
        Encode_hello del: Encode.simps)
  let ?m1 = "example_message\<lparr>buf := example_document, buildCalled := True\<rparr>"
  have fields: "body ?m1 = ''hello''" "tls ?m1 = False" "from_addr ?m1 = ''a@x.com''"
    "to_addrs ?m1 = [''b@x.com'']" "smtpUri ?m1 = ''localhost:25''"
    by (simp_all add: smtpUri_def example_message_def SetBody_def New_def itoa_def utoa.simps)
  have body: "body ?m1 \<noteq> []"
    by (simp add: fields)
  have all: "\<forall>t. reply accepting_server t = None"
    by (simp add: accepting_server_def)
  have up: "upgrade accepting_server (snd (build [] [] ?m1)) [Dial (smtpUri ?m1)]
      = (None, [Dial (smtpUri ?m1)])"
    by (simp add: upgrade_def fields)
  have s: "Send accepting_server [] [] ?m1
      = (None,
          [Dial ''localhost:25'', Mail ''a@x.com'', Rcpt ''b@x.com'', Data,
           Write (example_document @ example_document), Close, Quit],
          example_message\<lparr>buf := example_document @ example_document, buildCalled := True\<rparr>)"
    using Send_accepted [OF body all up] by (simp add: fields b3)
  have "example_document @ example_document \<noteq> example_document"
    by (simp add: example_document_def)
  with b1 b2 s show ?thesis
    by simp
qed
section \<open>TLS\<close>

text \<open>
  Claim C7. Let the message ask for TLS, let \<^verbatim>\<open>build\<close> and the dial succeed, let the
  server advertise \<^verbatim>\<open>STARTTLS\<close>, and let the handshake fail. Then \<^verbatim>\<open>Send\<close> returns the
  error of the handshake, and its calls are the dial, the query, the handshake,
  \<^verbatim>\<open>Reset\<close> and \<^verbatim>\<open>Quit\<close>, and no more: no sender, no recipient and no data go out.
\<close>

theorem starttls_failure_aborts:
  assumes "tls m" and "body m \<noteq> []"
    and "reply srv [Dial (smtpUri m)] = None"
    and "supports srv [Dial (smtpUri m), Extension ''STARTTLS'']"
    and "reply srv [Dial (smtpUri m), Extension ''STARTTLS'', StartTLS True (server m)] = Some err"
  shows "Send srv ks ks' m =
    (Some err,
     [Dial (smtpUri m), Extension ''STARTTLS'', StartTLS True (server m), Reset, Quit],
     snd (build ks ks' m))"
proof -
  have "upgrade srv (snd (build ks ks' m)) [Dial (smtpUri m)] =
      (Some err, [Dial (smtpUri m), Extension ''STARTTLS'', StartTLS True (server m), Reset, Quit])"
    using assms(1,4,5) by (simp add: upgrade_def Let_def)
  with assms(3) show ?thesis
    by (simp add: Send_built [OF assms(2)])
qed

theorem starttls_failure_aborts_witness:
  "tls example_tls_message \<and> body example_tls_message \<noteq> []
   \<and> smtpUri example_tls_message = ''mail.example.org:587''
   \<and> server example_tls_message = ''mail.example.org''
   \<and> reply handshake_failing_server [Dial ''mail.example.org:587''] = None
   \<and> supports handshake_failing_server [Dial ''mail.example.org:587'', Extension ''STARTTLS'']
   \<and> reply handshake_failing_server
        [Dial ''mail.example.org:587'', Extension ''STARTTLS'', StartTLS True ''mail.example.org'']
       = Some (SmtpError ''tls: handshake failure'')
   \<and> fst (Send handshake_failing_server [] [] example_tls_message)
       = Some (SmtpError ''tls: handshake failure'')
   \<and> fst (snd (Send handshake_failing_server [] [] example_tls_message))
       = [Dial ''mail.example.org:587'', Extension ''STARTTLS'', StartTLS True ''mail.example.org'',
          Reset, Quit]"
proof -
  have uri: "smtpUri example_tls_message = ''mail.example.org:587''"
    by (simp add: smtpUri_def example_tls_message_def SetBody_def New_def itoa_def utoa.simps)
  have srv: "server example_tls_message = ''mail.example.org''"
    by (simp add: example_tls_message_def SetBody_def New_def)
  have h1: "tls example_tls_message"
    by (simp add: example_tls_message_def SetBody_def New_def)
  have h2: "body example_tls_message \<noteq> []"
    by (simp add: example_tls_message_def SetBody_def New_def)
  have h3: "reply handshake_failing_server [Dial (smtpUri example_tls_message)] = None"
    by (simp add: handshake_failing_server_def)
  have h4: "supports handshake_failing_server
      [Dial (smtpUri example_tls_message), Extension ''STARTTLS'']"
    by (simp add: handshake_failing_server_def)
  have h5: "reply handshake_failing_server
      [Dial (smtpUri example_tls_message), Extension ''STARTTLS'',
       StartTLS True (server example_tls_message)] = Some (SmtpError ''tls: handshake failure'')"
    by (simp add: handshake_failing_server_def srv)
  show ?thesis
    using h1 h2 h3 h4 h5 starttls_failure_aborts [OF h1 h2 h3 h4 h5, of "[]" "[]"]
    by (simp add: uri srv)
qed

text \<open>
  Claim C10. Let the message ask for TLS, let \<^verbatim>\<open>build\<close> and the dial succeed, and let the
  server not advertise \<^verbatim>\<open>STARTTLS\<close>. Then \<^verbatim>\<open>Send\<close> goes straight from the query to the
  sender: no call of \<^verbatim>\<open>StartTLS\<close> is made on the connection, before or after. If the
  server accepts every command, \<^verbatim>\<open>Send\<close> returns no error, having written the whole
  buffer to that connection.
\<close>

theorem no_starttls_no_upgrade:
  assumes "tls m" and "body m \<noteq> []"
    and "reply srv [Dial (smtpUri m)] = None"
    and "\<not> supports srv [Dial (smtpUri m), Extension ''STARTTLS'']"
  shows "(\<exists>calls. fst (snd (Send srv ks ks' m)) =
            [Dial (smtpUri m), Extension ''STARTTLS'', Mail (from_addr m)] @ calls
          \<and> (\<forall>v c. StartTLS v c \<notin> set calls))
    \<and> ((\<forall>t. reply srv t = None) \<longrightarrow>
          Send srv ks ks' m =
            (None,
             [Dial (smtpUri m), Extension ''STARTTLS'', Mail (from_addr m)]
               @ map Rcpt (to_addrs m)
               @ [Data, Write (buf (snd (build ks ks' m))), Close, Quit],
             snd (build ks ks' m)))"
proof -
  have up: "upgrade srv (snd (build ks ks' m)) [Dial (smtpUri m)] =
      (None, [Dial (smtpUri m), Extension ''STARTTLS''])"
    using assms(1,4) by (simp add: upgrade_def Let_def)
  from Send_after_upgrade [OF assms(2,3) up] obtain r where
    tr: "fst (snd (Send srv ks ks' m)) =
           [Dial (smtpUri m), Extension ''STARTTLS''] @ Mail (from_addr m) # r"
    and r: "set r \<subseteq> Rcpt ` set (to_addrs m)
              \<union> {Data, Write (buf (snd (build ks ks' m))), Close, Reset, Quit}"
    by blast
  from r have "\<forall>v c. StartTLS v c \<notin> set r"
    by auto
  with tr have first: "\<exists>calls. fst (snd (Send srv ks ks' m)) =
            [Dial (smtpUri m), Extension ''STARTTLS'', Mail (from_addr m)] @ calls
          \<and> (\<forall>v c. StartTLS v c \<notin> set calls)"
    by simp
  have "Send srv ks ks' m =
            (None,
             [Dial (smtpUri m), Extension ''STARTTLS'', Mail (from_addr m)]
               @ map Rcpt (to_addrs m)
               @ [Data, Write (buf (snd (build ks ks' m))), Close, Quit],
             snd (build ks ks' m))" if "\<forall>t. reply srv t = None"
    using Send_accepted [OF assms(2) that up] by simp
  with first show ?thesis
    by blast
qed

theorem no_starttls_no_upgrade_witness:
  "tls example_tls_message \<and> body example_tls_message \<noteq> []
   \<and> reply accepting_server [Dial (smtpUri example_tls_message)] = None
   \<and> \<not> supports accepting_server [Dial (smtpUri example_tls_message), Extension ''STARTTLS'']
   \<and> (\<forall>t. reply accepting_server t = None)
   \<and> fst (Send accepting_server [] [] example_tls_message) = None
   \<and> fst (snd (Send accepting_server [] [] example_tls_message))
       = [Dial ''mail.example.org:587'', Extension ''STARTTLS'', Mail ''a@x.com'',
          Rcpt ''b@x.com'', Rcpt ''c@y.org'', Data,
          Write (buf (snd (build [] [] example_tls_message))), Close, Quit]"
proof -
  have fields: "smtpUri example_tls_message = ''mail.example.org:587''"
    "from_addr example_tls_message = ''a@x.com''"
    "to_addrs example_tls_message = [''b@x.com'', ''c@y.org'']"
    by (simp_all add: smtpUri_def example_tls_message_def SetBody_def New_def itoa_def utoa.simps)
  have h1: "tls example_tls_message"
    by (simp add: example_tls_message_def SetBody_def New_def)
  have h2: "body example_tls_message \<noteq> []"
    by (simp add: example_tls_message_def SetBody_def New_def)
  have h3: "reply accepting_server [Dial (smtpUri example_tls_message)] = None"
    by (simp add: accepting_server_def)
  have h4: "\<not> supports accepting_server [Dial (smtpUri example_tls_message), Extension ''STARTTLS'']"
    by (simp add: accepting_server_def)
  have h5: "\<forall>t. reply accepting_server t = None"
    by (simp add: accepting_server_def)
  show ?thesis
    using h1 h2 h3 h4 h5 no_starttls_no_upgrade [OF h1 h2 h3 h4, of "[]" "[]"]
    by (simp add: fields)
qed

end
